theory Spec2Isabelle
  imports Main "HOL-Library.Sublist"
begin

section \<open>Strings, values and exceptions of the Python program\<close>

text \<open>
  A Python \<open>str\<close> is a sequence of code points; it is modelled as a \<open>string\<close>, one
  \<open>char\<close> standing for one code point, so that \<open>length\<close> is Python's \<open>len\<close> and
  \<open>drop n s\<close> is the slice \<open>s[n:]\<close> for \<open>0 \<le> n\<close>.
\<close>

abbreviation NL :: char where
  "NL \<equiv> CHR 0x0A"

abbreviation sq :: string where
  "sq \<equiv> [CHR 0x27]"

text \<open>The exceptions that the modelled code can raise.\<close>

datatype error =
    KeyError
  | UnboundLocalError
  | AttributeError
  | TypeError
  | GetIssueCommentException
  | EditIssueCommentException

text \<open>How a call ends: it returns \<open>None\<close>, or an exception leaves it.\<close>

datatype outcome = Returned | Raised error

text \<open>
  \<open>s.split(sep)\<close> for a one-character separator: the pieces between the separators, so
  that the empty string gives one empty piece and a trailing separator a last empty piece.
\<close>

fun split_on :: "char \<Rightarrow> string \<Rightarrow> string list" where
  "split_on sep [] = [[]]"
| "split_on sep (c # cs) =
     (if c = sep then [] # split_on sep cs
      else (case split_on sep cs of
              [] \<Rightarrow> [[c]]
            | piece # pieces \<Rightarrow> (c # piece) # pieces))"

text \<open>
  Truthiness of what \<open>get_bot_command\<close> returns, as \<open>if bot_command:\<close> and \<open>any(...)\<close>
  test it: \<open>None\<close> and the empty string are false.
\<close>

fun truthy :: "string option \<Rightarrow> bool" where
  "truthy None = False"
| "truthy (Some s) = (s \<noteq> [])"

section \<open>The issue-comment event\<close>

text \<open>
  The fields of \<open>event_info['raw_request_body']\<close> that \<open>handle_issue_comment_event\<close>
  reads. \<open>changes_body_from\<close> is \<open>request_body['changes']['body']['from']\<close>, absent
  (\<open>None\<close>) when the payload has no such key.
\<close>

record comment_event =
  issue_url :: string
  action :: string
  sender_login :: string
  comment_user_login :: string
  comment_body :: string
  changes_body_from :: "string option"
  repository_full_name :: string
  issue_number :: int
  comment_id :: int

subsection \<open>What is new in the comment (lines 96 to 112)\<close>

text \<open>
  The local variables that the handler has after the diff: \<open>comment_new\<close> is bound only
  in the branches for \<open>created\<close> and \<open>edited\<close>, \<open>comment_diff\<close> starts as the empty string.
\<close>

record diff_locals =
  comment_new :: "string option"
  comment_diff :: string

text \<open>
  The result is paired with the messages logged on the way. Reading the old body of an
  edited comment raises \<open>KeyError\<close> when the payload does not carry it.
\<close>

definition determine_diff :: "comment_event \<Rightarrow> (error + diff_locals) \<times> string list" where
  "determine_diff ev =
     (if action ev = ''created'' then
        (let comment_old = ([] :: string);
             new = comment_body ev;
             d = drop (length comment_old) new
         in (Inr \<lparr>comment_new = Some new, comment_diff = d\<rparr>,
             [''comment created: '' @ sq @ d @ sq]))
      else if action ev = ''edited'' then
        (case changes_body_from ev of
           None \<Rightarrow> (Inl KeyError, [])
         | Some comment_old \<Rightarrow>
             (let new = comment_body ev;
                  d = (if length comment_old < length new
                       then drop (length comment_old) new else []);
                  shorter = (if length comment_old < length new then []
                       else [''comment edited: NEW shorter than OLD (assume cleanup -> no action)''])
              in (Inr \<lparr>comment_new = Some new, comment_diff = d\<rparr>,
                  [''comment edited: OLD '' @ sq @ comment_old @ sq,
                   ''comment edited: NEW '' @ sq @ new @ sq]
                  @ shorter
                  @ [''comment edited: DIFF '' @ sq @ d @ sq])))
      else (Inr \<lparr>comment_new = None, comment_diff = []\<rparr>, []))"

section \<open>The remote comment store and the log\<close>

text \<open>
  What the handlers act on. \<open>comments\<close> are the bodies of the comments of the pull
  request, by comment id. A call of \<open>get_issue_comment\<close> or of \<open>edit\<close> may raise:
  \<open>fetch_raises w n\<close> is the exception of the \<open>n\<close>-th fetch (counted from 0) if it
  fails, and likewise \<open>edit_raises\<close>, in the way the tests set \<open>side_effect\<close> and
  \<open>edit_raises\<close> on their mocks; \<open>fetch_calls\<close> and \<open>edit_calls\<close> count the calls made
  (the mocks' \<open>call_count\<close>). \<open>dispatched\<close> are the build and deploy tasks started and
  \<open>log_lines\<close> the messages logged, oldest first.
\<close>

datatype dispatch = SubmitBuildJobs int | DeployBuiltArtefacts int

record world =
  comments :: "int \<rightharpoonup> string"
  fetch_raises :: "nat \<Rightarrow> error option"
  edit_raises :: "nat \<Rightarrow> error option"
  fetch_calls :: nat
  edit_calls :: nat
  dispatched :: "dispatch list"
  log_lines :: "string list"

definition log_msgs :: "string list \<Rightarrow> world \<Rightarrow> world" where
  "log_msgs ms w = w\<lparr>log_lines := log_lines w @ ms\<rparr>"

text \<open>
  \<open>pull_request.get_issue_comment(id)\<close>: the comment object, here its body, or \<open>None\<close>
  where the store has no such comment (as the mock of the tests returns it).
\<close>

definition get_issue_comment :: "int \<Rightarrow> world \<Rightarrow> (error + string option) \<times> world" where
  "get_issue_comment cid w =
     (let w' = w\<lparr>fetch_calls := Suc (fetch_calls w)\<rparr>
      in case fetch_raises w (fetch_calls w) of
           Some e \<Rightarrow> (Inl e, w')
         | None \<Rightarrow> (Inr (comments w cid), w'))"

text \<open>\<open>issue_comment.edit(body)\<close>: the body is replaced unless the call raises.\<close>

definition edit :: "int \<Rightarrow> string \<Rightarrow> world \<Rightarrow> (error + unit) \<times> world" where
  "edit cid new_body w =
     (let w' = w\<lparr>edit_calls := Suc (edit_calls w)\<rparr>
      in case edit_raises w (edit_calls w) of
           Some e \<Rightarrow> (Inl e, w')
         | None \<Rightarrow> (Inr (), w'\<lparr>comments := (comments w)(cid \<mapsto> new_body)\<rparr>))"

section \<open>Scanning the new lines for commands (lines 117 to 132)\<close>

text \<open>
  The loop over \<open>comment_diff.split('\n')\<close>, with \<open>comment_update\<close> and the messages
  logged so far as accumulators. \<open>get_bot_command\<close> (of \<open>tools/commands.py\<close>) is a
  parameter. Under \<open>if bot_command:\<close> the value is a non-empty string, so the case
  \<open>None\<close> of that branch is never reached.
\<close>

fun scan_lines :: "(string \<Rightarrow> string option) \<Rightarrow> string \<Rightarrow> string list
    \<Rightarrow> string \<times> string list \<Rightarrow> string \<times> string list" where
  "scan_lines get_bot_command sender [] (comment_update, msgs) = (comment_update, msgs)"
| "scan_lines get_bot_command sender (line # lines) (comment_update, msgs) =
     (let msgs1 = msgs @ [''searching line '' @ sq @ line @ sq @ '' for bot command''];
          bot_command = get_bot_command line
      in if truthy bot_command then
           (case bot_command of
              None \<Rightarrow> scan_lines get_bot_command sender lines (comment_update, msgs1)
            | Some cmd \<Rightarrow>
                scan_lines get_bot_command sender lines
                  (((comment_update @ NL # ''- received bot command '')
                      @ ''`'' @ cmd @ ''`'')
                      @ '' from `'' @ sender @ ''`'',
                   msgs1 @ [''found bot command: '' @ sq @ cmd @ sq]))
         else
           scan_lines get_bot_command sender lines
             (comment_update,
              msgs1 @ [sq @ line @ sq @ '' is not considered to contain a bot command'']))"

section \<open>The issue-comment handler\<close>

text \<open>
  Lines 143 to 150: the comment is looked up and edited. The lookups of the repository and
  of the pull request are part of the fetch. \<open>issue_comment.edit\<close> on \<open>None\<close> raises
  \<open>AttributeError\<close>; the argument \<open>comment_new + comment_update\<close> is evaluated after that
  and raises \<open>UnboundLocalError\<close> when \<open>comment_new\<close> was never assigned.
\<close>

definition edit_pr_comment :: "comment_event \<Rightarrow> string option \<Rightarrow> string \<Rightarrow> world
    \<Rightarrow> outcome \<times> world" where
  "edit_pr_comment ev new comment_update w =
     (case get_issue_comment (comment_id ev) w of
        (Inl e, w1) \<Rightarrow> (Raised e, w1)
      | (Inr None, w1) \<Rightarrow> (Raised AttributeError, w1)
      | (Inr (Some issue_comment), w1) \<Rightarrow>
          (case new of
             None \<Rightarrow> (Raised UnboundLocalError, w1)
           | Some n \<Rightarrow>
               (case edit (comment_id ev) (n @ comment_update) w1 of
                  (Inl e, w2) \<Rightarrow> (Raised e, w2)
                | (Inr u, w2) \<Rightarrow> (Returned, w2))))"

text \<open>
  \<open>handle_issue_comment_event\<close>. \<open>check_command_permission\<close> (of \<open>tools/permissions.py\<close>)
  and \<open>get_bot_command\<close> are parameters.
\<close>

definition handle_issue_comment_event :: "(string \<Rightarrow> string option) \<Rightarrow> (string \<Rightarrow> bool)
    \<Rightarrow> comment_event \<Rightarrow> world \<Rightarrow> outcome \<times> world" where
  "handle_issue_comment_event get_bot_command check_command_permission ev w =
     (let sender = sender_login ev;
          w0 = log_msgs [''Comment in '' @ issue_url ev @ '' (owned by @''
                  @ comment_user_login ev @ '') '' @ action ev @ '' by @'' @ sender
                  @ '': '' @ comment_body ev] w
      in if check_command_permission sender then
           (Returned,
            log_msgs [''account `'' @ sender
                      @ ''` has no permission to send commands to bot''] w0)
         else
           (case determine_diff ev of
              (Inl e, msgs) \<Rightarrow> (Raised e, log_msgs msgs w0)
            | (Inr loc, msgs) \<Rightarrow>
                (let w1 = log_msgs msgs w0;
                     (comment_update, found) =
                        scan_lines get_bot_command sender
                          (split_on NL (comment_diff loc)) ([], []);
                     w2 = log_msgs (found @ [''comment update: '' @ sq @ comment_update @ sq]) w1
                 in if comment_update = [] then
                      (Returned, log_msgs [''update to comment is empty''] w2)
                    else if \<not> list_ex (\<lambda>line. truthy (get_bot_command line))
                                 (split_on NL comment_update) then
                      (case edit_pr_comment ev (comment_new loc) comment_update w2 of
                         (Raised e, w3) \<Rightarrow> (Raised e, w3)
                       | (Returned, w3) \<Rightarrow>
                           (Returned, log_msgs [''issue_comment event handled!''] w3))
                    else
                      (Returned,
                       log_msgs [''update '' @ sq @ comment_update @ sq
                           @ '' is considered to contain bot command ... not updating PR comment'',
                           ''issue_comment event handled!''] w2))))"

section \<open>The handler of labelled pull requests\<close>

text \<open>Decimal rendering of an integer, as \<open>str\<close> and the format \<open>%s\<close> give it.\<close>

definition digit_char :: "nat \<Rightarrow> char" where
  "digit_char d = ''0123456789'' ! d"

fun show_nat :: "nat \<Rightarrow> string" where
  "show_nat n = (if n < 10 then [digit_char n] else show_nat (n div 10) @ [digit_char (n mod 10)])"

declare show_nat.simps [simp del]

definition show_int :: "int \<Rightarrow> string" where
  "show_int i = (if i < 0 then CHR ''-'' # show_nat (nat (- i)) else show_nat (nat i))"

text \<open>
  What \<open>handle_pull_request_labeled_event\<close> reads: \<open>pr.number\<close> and
  \<open>event_info['raw_request_body']['label']['name']\<close>. \<open>handle_pull_request_event\<close> finds
  this handler by its name, \<open>handle_pull_request_%s_event\<close> with the action \<open>labeled\<close>,
  and calls it with the event and the pull request.
\<close>

record labeled_event =
  pr_number :: int
  label_name :: string

text \<open>
  \<open>check_build_permission\<close>, \<open>submit_build_jobs\<close> and \<open>deploy_built_artefacts\<close> belong to
  \<open>tasks/build.py\<close> and \<open>tasks/deploy.py\<close>: the check is a parameter, and a call of one of
  the two tasks is recorded in \<open>dispatched\<close>.
\<close>

definition handle_pull_request_labeled_event :: "(labeled_event \<Rightarrow> bool) \<Rightarrow> labeled_event
    \<Rightarrow> world \<Rightarrow> outcome \<times> world" where
  "handle_pull_request_labeled_event check_build_permission ev w =
     (let label = label_name ev;
          w0 = log_msgs [''Process PR labeled event: PR#'' @ show_int (pr_number ev)
                  @ '', label '' @ sq @ label @ sq] w
      in if label = ''bot:build'' then
           (if check_build_permission ev then
              (Returned, w0\<lparr>dispatched := dispatched w0 @ [SubmitBuildJobs (pr_number ev)]\<rparr>)
            else (Returned, w0))
         else if label = ''bot:deploy'' then
           (Returned, w0\<lparr>dispatched := dispatched w0 @ [DeployBuiltArtefacts (pr_number ev)]\<rparr>)
         else
           (Returned,
            log_msgs [''handle_pull_request_labeled_event: no handler for label ''
                      @ sq @ label @ sq] w0))"

section \<open>The command matcher\<close>

text \<open>
  Modelled from the spec: \<open>tools/commands.py\<close>, which defines \<open>get_bot_command\<close>, is not
  among the sources. Section 4.1 of the specification: a line matches if, after removing
  leading and trailing whitespace, it begins with the prefix token \<open>bot:\<close> followed by a
  recognized command keyword and optional \<open>key:value\<close> modifiers; the result is the
  normalized command (prefix, keyword and modifiers, whitespace-collapsed) or nothing.
  The keywords are those that the comment at the head of \<open>handle_issue_comment_event\<close>
  lists: \<open>rebuild\<close>, \<open>cancel\<close> and \<open>disable\<close>.
\<close>

text \<open>Modelled from the spec: the fixed prefix token of section 4.1.\<close>

definition command_prefix :: string where
  "command_prefix = ''bot:''"

text \<open>
  Modelled from the spec: the recognized command keywords of section 4.1, which names
  \<open>rebuild\<close>; the other two are taken from the handler's comment.
\<close>

definition command_keywords :: "string list" where
  "command_keywords = [''rebuild'', ''cancel'', ''disable'']"

text \<open>
  Modelled from the spec: whitespace, as section 4.1 removes and collapses it, is the
  space and the control characters from tab to carriage return.
\<close>

definition is_space :: "char \<Rightarrow> bool" where
  "is_space c = (c \<in> set [CHR '' '', CHR 0x09, CHR 0x0A, CHR 0x0B, CHR 0x0C, CHR 0x0D])"

text \<open>Modelled from the spec: removing leading and trailing whitespace.\<close>

definition strip :: "string \<Rightarrow> string" where
  "strip s = rev (dropWhile is_space (rev (dropWhile is_space s)))"

text \<open>
  Modelled from the spec: the words of a string, its maximal runs of characters that are
  not whitespace (\<open>cur\<close> is the word being read), and their joining with single spaces,
  which together collapse whitespace.
\<close>

fun split_words :: "string \<Rightarrow> string \<Rightarrow> string list" where
  "split_words cur [] = (if cur = [] then [] else [cur])"
| "split_words cur (c # cs) =
     (if is_space c then (if cur = [] then split_words [] cs else cur # split_words [] cs)
      else split_words (cur @ [c]) cs)"

text \<open>Modelled from the spec: words joined by single spaces, the normalized form.\<close>

fun join_words :: "string list \<Rightarrow> string" where
  "join_words [] = []"
| "join_words [w] = w"
| "join_words (w # ws) = w @ '' '' @ join_words ws"

text \<open>
  Modelled from the spec: a \<open>key:value\<close> modifier has a key and a value, both non-empty,
  around its first colon.
\<close>

definition is_modifier :: "string \<Rightarrow> bool" where
  "is_modifier w =
     (takeWhile (\<lambda>c. c \<noteq> CHR '':'') w \<noteq> []
      \<and> (case dropWhile (\<lambda>c. c \<noteq> CHR '':'') w of [] \<Rightarrow> False | colon # v \<Rightarrow> v \<noteq> []))"

text \<open>
  Modelled from the spec: \<open>get_bot_command\<close> of the absent \<open>tools/commands.py\<close>, the
  contract \<open>match(line)\<close> of section 4.1.
\<close>

definition get_bot_command :: "string \<Rightarrow> string option" where
  "get_bot_command line =
     (let s = strip line
      in if prefix command_prefix s then
           (case split_words [] (drop (length command_prefix) s) of
              [] \<Rightarrow> None
            | keyword # modifiers \<Rightarrow>
                if keyword \<in> set command_keywords \<and> list_all is_modifier modifiers
                then Some (join_words (command_prefix # keyword # modifiers))
                else None)
         else None)"

section \<open>The comment updater\<close>

text \<open>
  The update passed to \<open>update_comment\<close> is a string, or something else: the tests pass
  the integer \<open>42\<close>.
\<close>

datatype pyval = PyStr string | PyInt int

text \<open>\<open>old_body + new_suffix\<close> raises \<open>TypeError\<close> unless the suffix is a string.\<close>

fun py_add :: "string \<Rightarrow> pyval \<Rightarrow> error + string" where
  "py_add old_body (PyStr s) = Inr (old_body @ s)"
| "py_add old_body (PyInt i) = Inl TypeError"

text \<open>The suffix as an f-string renders it.\<close>

fun py_str :: "pyval \<Rightarrow> string" where
  "py_str (PyStr s) = s"
| "py_str (PyInt i) = show_int i"

text \<open>
  Modelled from the spec: \<open>tools/pr_comments.py\<close>, which defines \<open>update_comment\<close>, is not
  among the sources (only its tests are). Section 4.4 of the specification, step by step.

  Step 1 and 2: the comment is fetched, a failed fetch is retried, and there are at most
  \<open>max_retries\<close> attempts, the first one included; the last failure is propagated. The
  specification gives no meaning to a budget of 0: the first attempt is then made all the same.
\<close>

fun fetch_phase :: "nat \<Rightarrow> int \<Rightarrow> world \<Rightarrow> (error + string option) \<times> world" where
  "fetch_phase budget cid w =
     (case get_issue_comment cid w of
        (Inr found, w') \<Rightarrow> (Inr found, w')
      | (Inl e, w') \<Rightarrow>
          (case budget of
             Suc (Suc k) \<Rightarrow> fetch_phase (Suc k) cid w'
           | _ \<Rightarrow> (Inl e, w')))"

text \<open>
  Modelled from the spec: one write of step 4 of section 4.4, for the absent
  \<open>update_comment\<close>: the new body \<open>old_body + new_suffix\<close> is computed and the edit is
  called with it.
\<close>

definition write_attempt :: "int \<Rightarrow> string \<Rightarrow> pyval \<Rightarrow> world \<Rightarrow> (error + unit) \<times> world" where
  "write_attempt cid old_body new_suffix w =
     (case py_add old_body new_suffix of
        Inl e \<Rightarrow> (Inl e, w)
      | Inr new_body \<Rightarrow> edit cid new_body w)"

text \<open>
  Modelled from the spec: the diagnostic of step 3 of section 4.4, for the absent
  \<open>update_comment\<close>; the tests expect the same text.
\<close>

definition no_comment_msg :: "int \<Rightarrow> pyval \<Rightarrow> string" where
  "no_comment_msg cid new_suffix =
     ''no comment with id '' @ show_int cid @ '', skipping update ''
       @ sq @ py_str new_suffix @ sq"

text \<open>
  Modelled from the spec: step 4 of section 4.4, for the absent \<open>update_comment\<close>. The
  write is attempted at most \<open>budget\<close> times (once for a budget of 0); before each retry
  the comment is fetched again, by step 1 with its own budget, and steps 2 and 3 apply to
  that fetch.
\<close>

fun write_phase :: "nat \<Rightarrow> nat \<Rightarrow> int \<Rightarrow> pyval \<Rightarrow> string \<Rightarrow> world \<Rightarrow> outcome \<times> world" where
  "write_phase budget max_retries cid new_suffix old_body w =
     (case write_attempt cid old_body new_suffix w of
        (Inr u, w') \<Rightarrow> (Returned, w')
      | (Inl e, w') \<Rightarrow>
          (case budget of
             Suc (Suc k) \<Rightarrow>
               (case fetch_phase max_retries cid w' of
                  (Inl e', w'') \<Rightarrow> (Raised e', w'')
                | (Inr None, w'') \<Rightarrow> (Returned, log_msgs [no_comment_msg cid new_suffix] w'')
                | (Inr (Some body), w'') \<Rightarrow>
                    write_phase (Suc k) max_retries cid new_suffix body w'')
           | _ \<Rightarrow> (Raised e, w')))"

text \<open>
  Modelled from the spec: \<open>update_comment\<close> of the absent \<open>tools/pr_comments.py\<close>, steps
  1 to 5 of section 4.4 together: \<open>update(comment_id, reader, new_suffix, max_retries)\<close>,
  the reader being the comment store of the world.
\<close>

definition update_comment :: "int \<Rightarrow> pyval \<Rightarrow> nat \<Rightarrow> world \<Rightarrow> outcome \<times> world" where
  "update_comment cid new_suffix max_retries w =
     (case fetch_phase max_retries cid w of
        (Inl e, w') \<Rightarrow> (Raised e, w')
      | (Inr None, w') \<Rightarrow> (Returned, log_msgs [no_comment_msg cid new_suffix] w')
      | (Inr (Some old_body), w') \<Rightarrow>
          write_phase max_retries max_retries cid new_suffix old_body w')"

declare fetch_phase.simps [simp del]
declare write_phase.simps [simp del]

section \<open>Notions used to state the properties\<close>

text \<open>One line of the annotation, for a command and the sender of the event.\<close>

definition received_line :: "string \<Rightarrow> string \<Rightarrow> string" where
  "received_line cmd sender =
     ''- received bot command `'' @ cmd @ ''` from `'' @ sender @ ''`''"

text \<open>The commands that the matcher finds in a list of lines, in their order.\<close>

fun found_commands :: "(string \<Rightarrow> string option) \<Rightarrow> string list \<Rightarrow> string list" where
  "found_commands g [] = []"
| "found_commands g (l # ls) =
     (case g l of
        None \<Rightarrow> found_commands g ls
      | Some c \<Rightarrow> if c \<noteq> [] then c # found_commands g ls else found_commands g ls)"

text \<open>
  Sample inputs: an issue-comment event on comment 42 of pull request 7, and a world whose
  store holds that comment and in which no remote call fails.
\<close>

definition sample_event :: "string \<Rightarrow> string \<Rightarrow> string \<Rightarrow> string option \<Rightarrow> comment_event" where
  "sample_event act login new_body old_body =
     \<lparr>issue_url = ''https://api.github.com/repos/EESSI/software-layer/issues/7'',
      action = act, sender_login = login, comment_user_login = ''contributor'',
      comment_body = new_body, changes_body_from = old_body,
      repository_full_name = ''EESSI/software-layer'', issue_number = 7, comment_id = 42\<rparr>"

definition never_raises :: "nat \<Rightarrow> error option" where
  "never_raises n = None"

definition sample_world :: "string \<Rightarrow> world" where
  "sample_world body =
     \<lparr>comments = [42 \<mapsto> body], fetch_raises = never_raises, edit_raises = never_raises,
      fetch_calls = 0, edit_calls = 0, dispatched = [], log_lines = []\<rparr>"

text \<open>
  A \<open>check_command_permission\<close> that returns \<open>True\<close> for the one account with permission
  to send commands, \<open>maintainer\<close>, and \<open>False\<close> for every other account; a login that
  carries line breaks, and the event of a comment \<open>bot: rebuild\<close> created under that login.
\<close>

definition sample_check_command_permission :: "string \<Rightarrow> bool" where
  "sample_check_command_permission login = (login = ''maintainer'')"

definition forged_login :: string where
  "forged_login = ''eve\<newline>bot: rebuild\<newline>''"

definition forged_event :: comment_event where
  "forged_event = sample_event ''created'' forged_login ''bot: rebuild'' None"

text \<open>
  Further sample inputs: a comment that asks twice for a rebuild, with the annotation
  written for it, the deletion of a comment, remote calls that always raise or raise once,
  worlds with such calls, a world without the comment, and a build permission check that
  lets one pull request pass.
\<close>

definition twice_event :: comment_event where
  "twice_event =
     sample_event ''created'' ''contributor'' ''bot: rebuild\<newline>bot: rebuild'' None"

definition twice_annotation :: string where
  "twice_annotation = NL # received_line ''bot: rebuild'' ''contributor''
      @ NL # received_line ''bot: rebuild'' ''contributor''"

definition deleted_event :: comment_event where
  "deleted_event = sample_event ''deleted'' ''contributor'' ''bot: rebuild'' None"

definition always_raises :: "error \<Rightarrow> nat \<Rightarrow> error option" where
  "always_raises e n = Some e"

definition raises_once :: "error \<Rightarrow> nat \<Rightarrow> error option" where
  "raises_once e n = (if n = 0 then Some e else None)"

definition fetch_failing_world :: "string \<Rightarrow> world" where
  "fetch_failing_world body =
     (sample_world body)\<lparr>fetch_raises := always_raises GetIssueCommentException\<rparr>"

definition edit_failing_world :: "string \<Rightarrow> world" where
  "edit_failing_world body =
     (sample_world body)\<lparr>edit_raises := always_raises EditIssueCommentException\<rparr>"

definition flaky_world :: "string \<Rightarrow> world" where
  "flaky_world body =
     (sample_world body)\<lparr>fetch_raises := raises_once GetIssueCommentException\<rparr>"

definition empty_world :: world where
  "empty_world = (sample_world [])\<lparr>comments := Map.empty\<rparr>"

definition sample_check_build_permission :: "labeled_event \<Rightarrow> bool" where
  "sample_check_build_permission ev = (pr_number ev = 7)"

section \<open>Auxiliary facts\<close>

subsection \<open>The log\<close>

lemma log_msgs_log_msgs [simp]: "log_msgs b (log_msgs a w) = log_msgs (a @ b) w"
  by (simp add: log_msgs_def)

lemma log_msgs_frame [simp]:
  "comments (log_msgs ms w) = comments w"
  "edit_calls (log_msgs ms w) = edit_calls w"
  "fetch_calls (log_msgs ms w) = fetch_calls w"
  "fetch_raises (log_msgs ms w) = fetch_raises w"
  "edit_raises (log_msgs ms w) = edit_raises w"
  "dispatched (log_msgs ms w) = dispatched w"
  "log_lines (log_msgs ms w) = log_lines w @ ms"
  by (simp_all add: log_msgs_def)

subsection \<open>The scan loop\<close>

lemma scan_lines_fst:
  "fst (scan_lines g s ls (u, m)) =
     u @ concat (map (\<lambda>c. NL # received_line c s) (found_commands g ls))"
proof (induction ls arbitrary: u m)
  case Nil
  show ?case by simp
next
  case (Cons l ls)
  show ?case
    by (cases "g l") (simp_all add: Let_def Cons.IH received_line_def)
qed

lemma found_commands_nonempty:
  "list_ex (\<lambda>l. truthy (g l)) ls \<Longrightarrow> found_commands g ls \<noteq> []"
  by (induction ls) (auto split: option.splits)

lemma found_commands_sound:
  "c \<in> set (found_commands g ls) \<Longrightarrow> \<exists>l. g l = Some c"
  by (induction ls) (auto split: option.splits if_splits)

lemma scan_lines_nonempty:
  "list_ex (\<lambda>l. truthy (g l)) ls \<Longrightarrow> fst (scan_lines g s ls ([], [])) \<noteq> []"
  by (cases "found_commands g ls") (simp_all add: scan_lines_fst found_commands_nonempty)

subsection \<open>Splitting at line breaks\<close>

lemma split_on_nonempty [simp]: "split_on sep s \<noteq> []"
  by (induction s) (auto split: list.splits)

lemma split_on_no_sep:
  "sep \<notin> set a \<Longrightarrow> split_on sep (a @ r) = (a @ hd (split_on sep r)) # tl (split_on sep r)"
proof (induction a)
  case Nil
  show ?case by simp
next
  case (Cons c a)
  then show ?case by (auto split: list.splits)
qed

lemma split_on_segments:
  "\<forall>c \<in> set ls. sep \<notin> set c \<Longrightarrow> split_on sep (concat (map (\<lambda>c. sep # c) ls)) = [] # ls"
proof (induction ls)
  case Nil
  show ?case by simp
next
  case (Cons c ls)
  then show ?case by (simp add: split_on_no_sep)
qed

lemma annotation_split:
  assumes "NL \<notin> set s" and "\<forall>l c. g l = Some c \<longrightarrow> NL \<notin> set c"
  shows "split_on NL (concat (map (\<lambda>c. NL # received_line c s) (found_commands g ls)))
     = [] # map (\<lambda>c. received_line c s) (found_commands g ls)"
proof -
  have "\<forall>c \<in> set (map (\<lambda>c. received_line c s) (found_commands g ls)). NL \<notin> set c"
    using assms by (auto simp add: received_line_def dest!: found_commands_sound)
  from split_on_segments [OF this] show ?thesis by (simp add: comp_def)
qed

subsection \<open>Whitespace and the command prefix\<close>

lemma strip_keeps_first:
  "\<not> is_space c \<Longrightarrow> \<exists>t. strip (c # s) = c # t"
  by (simp add: strip_def dropWhile_append3)

lemma strip_Nil [simp]: "strip [] = []"
  by (simp add: strip_def)

lemma received_line_not_command:
  "\<not> prefix command_prefix (received_line c s)"
  "\<not> prefix command_prefix (strip (received_line c s))"
  "prefix ''- received bot command '' (received_line c s)"
proof -
  show "\<not> prefix command_prefix (received_line c s)"
    by (simp add: received_line_def command_prefix_def)
  have "\<not> is_space (CHR ''-'')" by (simp add: is_space_def)
  from strip_keeps_first [OF this]
  obtain t where "strip (received_line c s) = CHR ''-'' # t"
    unfolding received_line_def by (metis append_Cons)
  then show "\<not> prefix command_prefix (strip (received_line c s))"
    by (simp add: command_prefix_def)
  show "prefix ''- received bot command '' (received_line c s)"
    by (simp add: received_line_def)
qed

lemma split_words_chars:
  "w \<in> set (split_words cur s) \<Longrightarrow> ch \<in> set w \<Longrightarrow> ch \<in> set cur \<or> \<not> is_space ch"
  by (induction cur s rule: split_words.induct) (auto split: if_splits)

lemma join_words_chars:
  "ch \<in> set (join_words ws) \<Longrightarrow> ch = CHR '' '' \<or> (\<exists>w \<in> set ws. ch \<in> set w)"
  by (induction ws rule: join_words.induct) auto

lemma get_bot_command_anchored:
  "truthy (get_bot_command l) \<Longrightarrow> prefix command_prefix (strip l)"
  by (simp add: get_bot_command_def Let_def split: if_splits)

lemma get_bot_command_no_newline:
  assumes "get_bot_command l = Some c"
  shows "NL \<notin> set c"
proof
  assume nl: "NL \<in> set c"
  from assms obtain keyword modifiers where
    sw: "split_words [] (drop (length command_prefix) (strip l)) = keyword # modifiers"
    and c: "c = join_words (command_prefix # keyword # modifiers)"
    by (auto simp add: get_bot_command_def Let_def split: if_splits list.splits)
  from nl c join_words_chars [of NL "command_prefix # keyword # modifiers"]
  obtain w where w: "w \<in> set (command_prefix # keyword # modifiers)" "NL \<in> set w"
    by auto
  have "NL \<notin> set command_prefix" by (simp add: command_prefix_def)
  with w have "w \<in> set (split_words [] (drop (length command_prefix) (strip l)))"
    using sw by auto
  from split_words_chars [OF this w(2)] show False
    by (simp add: is_space_def)
qed

subsection \<open>Editing with an unbound new body\<close>

lemma edit_pr_comment_unbound:
  "comments (snd (edit_pr_comment ev None u w)) = comments w
   \<and> edit_calls (snd (edit_pr_comment ev None u w)) = edit_calls w"
  by (simp add: edit_pr_comment_def get_issue_comment_def Let_def split: option.splits)

subsection \<open>Fetching and writing with retries\<close>

lemma get_issue_comment_raises:
  "fetch_raises w (fetch_calls w) = Some e \<Longrightarrow>
   get_issue_comment cid w = (Inl e, w\<lparr>fetch_calls := Suc (fetch_calls w)\<rparr>)"
  by (simp add: get_issue_comment_def)

lemma get_issue_comment_returns:
  "fetch_raises w (fetch_calls w) = None \<Longrightarrow>
   get_issue_comment cid w = (Inr (comments w cid), w\<lparr>fetch_calls := Suc (fetch_calls w)\<rparr>)"
  by (simp add: get_issue_comment_def)

lemma fetch_phase_returns:
  "fetch_raises w (fetch_calls w) = None \<Longrightarrow>
   fetch_phase budget cid w = (Inr (comments w cid), w\<lparr>fetch_calls := Suc (fetch_calls w)\<rparr>)"
  by (subst fetch_phase.simps) (simp add: get_issue_comment_returns)

lemma fetch_phase_fails:
  "\<forall>n < Suc k. fetch_raises w (fetch_calls w + n) \<noteq> None \<Longrightarrow>
   fetch_phase (Suc k) cid w =
     (Inl (the (fetch_raises w (fetch_calls w + k))), w\<lparr>fetch_calls := fetch_calls w + Suc k\<rparr>)"
proof (induction k arbitrary: w)
  case 0
  then obtain e where "fetch_raises w (fetch_calls w) = Some e" by auto
  then show ?case
    by (subst fetch_phase.simps) (simp add: get_issue_comment_raises)
next
  case (Suc k)
  from Suc.prems obtain e where e: "fetch_raises w (fetch_calls w) = Some e" by force
  let ?w1 = "w\<lparr>fetch_calls := Suc (fetch_calls w)\<rparr>"
  have "\<forall>n < Suc k. fetch_raises ?w1 (fetch_calls ?w1 + n) \<noteq> None"
    using Suc.prems by (auto dest: spec [where x = "Suc n" for n])
  from Suc.IH [OF this]
  have "fetch_phase (Suc k) cid ?w1 =
     (Inl (the (fetch_raises w (fetch_calls w + Suc k))), w\<lparr>fetch_calls := fetch_calls w + Suc (Suc k)\<rparr>)"
    by simp
  then show ?case
    by (subst fetch_phase.simps) (simp add: get_issue_comment_raises [OF e])
qed

lemma fetch_phase_frame:
  "fetch_phase budget cid w = (r, w') \<Longrightarrow>
     (\<exists>k. w' = w\<lparr>fetch_calls := fetch_calls w + Suc k\<rparr>) \<and> (\<forall>c. r = Inr c \<longrightarrow> c = comments w cid)"
proof (induction budget cid w rule: fetch_phase.induct)
  case (1 budget cid w)
  show ?case
  proof (cases "fetch_raises w (fetch_calls w)")
    case None
    with "1.prems" show ?thesis
      by (auto simp add: fetch_phase_returns intro: exI [where x = 0])
  next
    case (Some e)
    note gi = get_issue_comment_raises [OF Some, of cid]
    show ?thesis
    proof (cases budget)
      case 0
      with "1.prems" gi show ?thesis
        by (subst (asm) fetch_phase.simps) (auto intro: exI [where x = 0])
    next
      case (Suc b)
      show ?thesis
      proof (cases b)
        case 0
        with Suc "1.prems" gi show ?thesis
          by (subst (asm) fetch_phase.simps) (auto intro: exI [where x = 0])
      next
        case (Suc k)
        note bk = this
        with \<open>budget = Suc b\<close> have b: "budget = Suc (Suc k)" by simp
        from "1.prems" gi b
        have "fetch_phase (Suc k) cid (w\<lparr>fetch_calls := Suc (fetch_calls w)\<rparr>) = (r, w')"
          by (subst (asm) fetch_phase.simps) simp
        from "1.IH" [OF gi [symmetric] refl \<open>budget = Suc b\<close> bk this]
        obtain j where "w' = w\<lparr>fetch_calls := Suc (fetch_calls w) + Suc j\<rparr>"
          and "\<forall>c. r = Inr c \<longrightarrow> c = comments w cid"
          by auto
        then show ?thesis by (auto intro: exI [where x = "Suc j"])
      qed
    qed
  qed
qed

lemma edit_raises_eq:
  "edit_raises w (edit_calls w) = Some e \<Longrightarrow>
   edit cid b w = (Inl e, w\<lparr>edit_calls := Suc (edit_calls w)\<rparr>)"
  by (simp add: edit_def)

lemma edit_returns:
  "edit_raises w (edit_calls w) = None \<Longrightarrow>
   edit cid b w = (Inr (), w\<lparr>edit_calls := Suc (edit_calls w), comments := (comments w)(cid \<mapsto> b)\<rparr>)"
  by (simp add: edit_def)

lemma write_phase_edit_fails:
  assumes "\<forall>n. fetch_raises w n = None" and "comments w cid = Some old"
    and "\<forall>n < Suc k. edit_raises w (edit_calls w + n) \<noteq> None"
  shows "write_phase (Suc k) m cid (PyStr s) old w =
     (Raised (the (edit_raises w (edit_calls w + k))),
      w\<lparr>fetch_calls := fetch_calls w + k, edit_calls := edit_calls w + Suc k\<rparr>)"
  using assms
proof (induction k arbitrary: w)
  case 0
  then obtain e where "edit_raises w (edit_calls w) = Some e" by auto
  then show ?case
    by (subst write_phase.simps) (simp add: write_attempt_def edit_raises_eq)
next
  case (Suc k)
  from Suc.prems obtain e where e: "edit_raises w (edit_calls w) = Some e" by force
  let ?w1 = "w\<lparr>edit_calls := Suc (edit_calls w)\<rparr>"
  let ?w2 = "?w1\<lparr>fetch_calls := Suc (fetch_calls w)\<rparr>"
  have f: "fetch_phase m cid ?w1 = (Inr (Some old), ?w2)"
    using fetch_phase_returns [of ?w1 m cid] Suc.prems(1,2) by simp
  have "\<forall>n < Suc k. edit_raises ?w2 (edit_calls ?w2 + n) \<noteq> None"
    using Suc.prems(3) by (auto dest: spec [where x = "Suc n" for n])
  moreover have "\<forall>n. fetch_raises ?w2 n = None" "comments ?w2 cid = Some old"
    using Suc.prems(1,2) by simp_all
  ultimately have "write_phase (Suc k) m cid (PyStr s) old ?w2 =
     (Raised (the (edit_raises ?w2 (edit_calls ?w2 + k))),
      ?w2\<lparr>fetch_calls := fetch_calls ?w2 + k, edit_calls := edit_calls ?w2 + Suc k\<rparr>)"
    using Suc.IH [of ?w2] by blast
  then show ?case
    by (subst write_phase.simps) (simp add: write_attempt_def edit_raises_eq [OF e] f)
qed

lemma write_phase_type_error:
  assumes "\<forall>n. fetch_raises w n = None" and "comments w cid = Some old"
  shows "write_phase (Suc k) m cid (PyInt i) old w =
     (Raised TypeError, w\<lparr>fetch_calls := fetch_calls w + k\<rparr>)"
  using assms
proof (induction k arbitrary: w)
  case 0
  then show ?case
    by (subst write_phase.simps) (simp add: write_attempt_def)
next
  case (Suc k)
  let ?w2 = "w\<lparr>fetch_calls := Suc (fetch_calls w)\<rparr>"
  have f: "fetch_phase m cid w = (Inr (Some old), ?w2)"
    using fetch_phase_returns [of w m cid] Suc.prems(1,2) by simp
  have "\<forall>n. fetch_raises ?w2 n = None" "comments ?w2 cid = Some old"
    using Suc.prems(1,2) by simp_all
  then have "write_phase (Suc k) m cid (PyInt i) old ?w2 =
     (Raised TypeError, ?w2\<lparr>fetch_calls := fetch_calls ?w2 + k\<rparr>)"
    using Suc.IH [of ?w2] by blast
  then show ?case
    by (subst write_phase.simps) (simp add: write_attempt_def f)
qed

lemma update_comment_fetch_fails:
  assumes "\<forall>n. fetch_raises w n \<noteq> None"
  shows "update_comment cid new_suffix (Suc k) w =
        (Raised (the (fetch_raises w (fetch_calls w + k))),
         w\<lparr>fetch_calls := fetch_calls w + Suc k\<rparr>)"
proof -
  have "fetch_phase (Suc k) cid w =
     (Inl (the (fetch_raises w (fetch_calls w + k))), w\<lparr>fetch_calls := fetch_calls w + Suc k\<rparr>)"
    using assms by (intro fetch_phase_fails) simp
  then show ?thesis by (simp add: update_comment_def)
qed

lemma update_comment_edit_fails:
  assumes "\<forall>n. fetch_raises w n = None" and "comments w cid = Some old"
    and "\<forall>n. edit_raises w n \<noteq> None"
  shows "update_comment cid (PyStr s) (Suc k) w =
        (Raised (the (edit_raises w (edit_calls w + k))),
         w\<lparr>fetch_calls := fetch_calls w + Suc k, edit_calls := edit_calls w + Suc k\<rparr>)"
proof -
  let ?w1 = "w\<lparr>fetch_calls := Suc (fetch_calls w)\<rparr>"
  have f: "fetch_phase (Suc k) cid w = (Inr (Some old), ?w1)"
    using fetch_phase_returns [of w "Suc k" cid] assms(1,2) by simp
  have "write_phase (Suc k) (Suc k) cid (PyStr s) old ?w1 =
       (Raised (the (edit_raises ?w1 (edit_calls ?w1 + k))),
        ?w1\<lparr>fetch_calls := fetch_calls ?w1 + k, edit_calls := edit_calls ?w1 + Suc k\<rparr>)"
    using assms by (intro write_phase_edit_fails) simp_all
  then show ?thesis
    by (simp add: update_comment_def f)
qed

lemma update_comment_type_error:
  assumes "\<forall>n. fetch_raises w n = None" and "comments w cid = Some old"
  shows "update_comment cid (PyInt i) (Suc k) w =
        (Raised TypeError, w\<lparr>fetch_calls := fetch_calls w + Suc k\<rparr>)"
proof -
  let ?w1 = "w\<lparr>fetch_calls := Suc (fetch_calls w)\<rparr>"
  have f: "fetch_phase (Suc k) cid w = (Inr (Some old), ?w1)"
    using fetch_phase_returns [of w "Suc k" cid] assms(1,2) by simp
  have "write_phase (Suc k) (Suc k) cid (PyInt i) old ?w1 =
       (Raised TypeError, ?w1\<lparr>fetch_calls := fetch_calls ?w1 + k\<rparr>)"
    using assms by (intro write_phase_type_error) simp_all
  then show ?thesis
    by (simp add: update_comment_def f)
qed

lemma write_attempt_cases:
  "write_attempt cid body new_suffix w = (r, w1) \<Longrightarrow>
     (r = Inr () \<and> (\<exists>s. new_suffix = PyStr s
          \<and> w1 = w\<lparr>edit_calls := Suc (edit_calls w), comments := (comments w)(cid \<mapsto> body @ s)\<rparr>))
   \<or> ((\<exists>e. r = Inl e) \<and> comments w1 = comments w \<and> log_lines w1 = log_lines w
        \<and> edit_calls w1 \<le> Suc (edit_calls w))"
  by (cases new_suffix) (auto simp add: write_attempt_def edit_def Let_def split: option.splits)

lemma write_phase_returned:
  "write_phase budget m cid new_suffix body w = (Returned, w') \<Longrightarrow> comments w cid = Some body \<Longrightarrow>
     \<exists>s. new_suffix = PyStr s \<and> comments w' = (comments w)(cid \<mapsto> body @ s)
        \<and> log_lines w' = log_lines w"
proof (induction budget arbitrary: w)
  case 0
  obtain r w1 where wa: "write_attempt cid body new_suffix w = (r, w1)"
    by (cases "write_attempt cid body new_suffix w")
  from "0.prems"(1) wa have "r = Inr ()" "w1 = w'"
    by (subst (asm) write_phase.simps; simp split: sum.splits)+
  with write_attempt_cases [OF wa] show ?case by auto
next
  case (Suc b)
  obtain r w1 where wa: "write_attempt cid body new_suffix w = (r, w1)"
    by (cases "write_attempt cid body new_suffix w")
  from write_attempt_cases [OF wa] show ?case
  proof
    assume ok: "r = Inr () \<and> (\<exists>s. new_suffix = PyStr s
          \<and> w1 = w\<lparr>edit_calls := Suc (edit_calls w), comments := (comments w)(cid \<mapsto> body @ s)\<rparr>)"
    with Suc.prems(1) wa have "w' = w1"
      by (subst (asm) write_phase.simps) simp
    with ok show ?thesis by auto
  next
    assume bad: "(\<exists>e. r = Inl e) \<and> comments w1 = comments w \<and> log_lines w1 = log_lines w
        \<and> edit_calls w1 \<le> Suc (edit_calls w)"
    then obtain e where e: "r = Inl e" by blast
    show ?thesis
    proof (cases b)
      case 0
      with Suc.prems(1) wa e show ?thesis
        by (subst (asm) write_phase.simps) simp
    next
      case (Suc k)
      obtain r2 w2 where f: "fetch_phase m cid w1 = (r2, w2)"
        by (cases "fetch_phase m cid w1")
      from fetch_phase_frame [OF f] obtain j where
        w2: "w2 = w1\<lparr>fetch_calls := fetch_calls w1 + Suc j\<rparr>"
        and r2: "\<forall>c. r2 = Inr c \<longrightarrow> c = comments w1 cid"
        by blast
      from Suc.prems(1) wa e Suc f
      have step: "(case r2 of
                  Inl e' \<Rightarrow> (Raised e', w2)
                | Inr None \<Rightarrow> (Returned, log_msgs [no_comment_msg cid new_suffix] w2)
                | Inr (Some body') \<Rightarrow> write_phase (Suc k) m cid new_suffix body' w2) = (Returned, w')"
        by (subst (asm) write_phase.simps) simp
      from r2 bad Suc.prems(2) have "r2 = Inr (Some body) \<or> (\<exists>e'. r2 = Inl e')"
        by (cases r2) auto
      with step Suc have rec: "write_phase b m cid new_suffix body w2 = (Returned, w')"
        by auto
      have "comments w2 cid = Some body"
        using w2 bad Suc.prems(2) by simp
      from Suc.IH [OF rec this] w2 bad show ?thesis by auto
    qed
  qed
qed

lemma update_comment_returned:
  assumes "update_comment cid new_suffix m w = (Returned, w')" and "comments w cid = Some old"
  shows "\<exists>s. new_suffix = PyStr s \<and> comments w' = (comments w)(cid \<mapsto> old @ s)
        \<and> log_lines w' = log_lines w"
proof -
  obtain r w1 where f: "fetch_phase m cid w = (r, w1)"
    by (cases "fetch_phase m cid w")
  from fetch_phase_frame [OF f] obtain j where
    w1: "w1 = w\<lparr>fetch_calls := fetch_calls w + Suc j\<rparr>"
    and r: "\<forall>c. r = Inr c \<longrightarrow> c = comments w cid"
    by blast
  from r assms(2) have "r = Inr (Some old) \<or> (\<exists>e. r = Inl e)"
    by (cases r) auto
  with assms(1) f have "write_phase m m cid new_suffix old w1 = (Returned, w')"
    by (auto simp add: update_comment_def)
  moreover have "comments w1 cid = Some old" using w1 assms(2) by simp
  ultimately show ?thesis using write_phase_returned w1 by fastforce
qed

lemma update_comment_first_try:
  assumes "fetch_raises w (fetch_calls w) = None" and "edit_raises w (edit_calls w) = None"
    and "comments w cid = Some old"
  shows "update_comment cid (PyStr s) m w =
     (Returned, w\<lparr>fetch_calls := Suc (fetch_calls w), edit_calls := Suc (edit_calls w),
                  comments := (comments w)(cid \<mapsto> old @ s)\<rparr>)"
  using assms
  by (simp add: update_comment_def fetch_phase_returns)
     (subst write_phase.simps, simp add: write_attempt_def edit_returns)

lemma update_comment_second_try:
  assumes "fetch_raises w (fetch_calls w) \<noteq> None"
    and "fetch_raises w (Suc (fetch_calls w)) = None"
    and "edit_raises w (edit_calls w) = None"
    and "comments w cid = Some old"
  shows "update_comment cid (PyStr s) (Suc (Suc k)) w =
     (Returned, w\<lparr>fetch_calls := Suc (Suc (fetch_calls w)), edit_calls := Suc (edit_calls w),
                  comments := (comments w)(cid \<mapsto> old @ s)\<rparr>)"
proof -
  from assms(1) obtain e where e: "fetch_raises w (fetch_calls w) = Some e" by auto
  let ?w1 = "w\<lparr>fetch_calls := Suc (fetch_calls w)\<rparr>"
  have "fetch_phase (Suc k) cid ?w1 = (Inr (comments ?w1 cid), ?w1\<lparr>fetch_calls := Suc (fetch_calls ?w1)\<rparr>)"
    using assms(2) by (intro fetch_phase_returns) simp
  then have f: "fetch_phase (Suc (Suc k)) cid w =
      (Inr (Some old), w\<lparr>fetch_calls := Suc (Suc (fetch_calls w))\<rparr>)"
    using assms(4)
    by (subst fetch_phase.simps) (simp add: get_issue_comment_raises [OF e])
  show ?thesis
    using assms(3)
    by (simp add: update_comment_def f)
       (subst write_phase.simps, simp add: write_attempt_def edit_returns)
qed

section \<open>The computed diff\<close>

text \<open>
  C2. The diff that the handler computes is the whole new body when the action is
  \<open>created\<close>; when the action is \<open>edited\<close> it is the part of the new body from index
  \<open>len(old_body)\<close> on if the old body is shorter than the new one, and the empty string if
  the new body is as long as the old one or shorter.
\<close>

theorem determine_diff_cases:
  "(action ev = ''created'' \<longrightarrow>
      map_sum id comment_diff (fst (determine_diff ev)) = Inr (comment_body ev))
   \<and> (action ev = ''edited'' \<and> changes_body_from ev = Some old
        \<and> length old < length (comment_body ev) \<longrightarrow>
      map_sum id comment_diff (fst (determine_diff ev))
        = Inr (drop (length old) (comment_body ev)))
   \<and> (action ev = ''edited'' \<and> changes_body_from ev = Some old
        \<and> length (comment_body ev) \<le> length old \<longrightarrow>
      map_sum id comment_diff (fst (determine_diff ev)) = Inr [])"
  by (simp add: determine_diff_def Let_def)

text \<open>The three examples of the specification.\<close>

theorem determine_diff_cases_witness:
  "map_sum id comment_diff
      (fst (determine_diff (sample_event ''created'' ''contributor'' ''hello'' None)))
     = Inr ''hello''
   \<and> map_sum id comment_diff
      (fst (determine_diff (sample_event ''edited'' ''contributor'' ''abcd'' (Some ''ab''))))
     = Inr ''cd''
   \<and> map_sum id comment_diff
      (fst (determine_diff (sample_event ''edited'' ''contributor'' ''ab'' (Some ''abcd''))))
     = Inr []"
  using determine_diff_cases [of "sample_event ''created'' ''contributor'' ''hello'' None"]
    determine_diff_cases [of "sample_event ''edited'' ''contributor'' ''abcd'' (Some ''ab'')" "''ab''"]
    determine_diff_cases [of "sample_event ''edited'' ''contributor'' ''ab'' (Some ''abcd'')" "''abcd''"]
  by (simp add: sample_event_def)

section \<open>The self-command guard\<close>

text \<open>
  C1. Take an issue-comment event whose diff is computed and has a line that yields a bot
  command. If a line of the annotation composed for it yields a bot command too, the
  handler makes no call of \<open>edit\<close> and leaves the comments as they are: it returns, and
  only the log has grown. When the sender has passed the permission gate, the log ends
  with the message that the comment is not updated.
\<close>

theorem self_command_guard:
  assumes "fst (determine_diff ev) = Inr loc"
    and "list_ex (\<lambda>line. truthy (gbc line)) (split_on NL (comment_diff loc))"
    and "annotation =
           fst (scan_lines gbc (sender_login ev) (split_on NL (comment_diff loc)) ([], []))"
    and "list_ex (\<lambda>line. truthy (gbc line)) (split_on NL annotation)"
  shows "(\<exists>logged. handle_issue_comment_event gbc perm ev w = (Returned, log_msgs logged w))
    \<and> edit_calls (snd (handle_issue_comment_event gbc perm ev w)) = edit_calls w
    \<and> comments (snd (handle_issue_comment_event gbc perm ev w)) = comments w
    \<and> (\<not> perm (sender_login ev) \<longrightarrow>
         (\<exists>earlier. handle_issue_comment_event gbc perm ev w =
            (Returned, log_msgs (earlier @
               [''update '' @ sq @ annotation @ sq
                  @ '' is considered to contain bot command ... not updating PR comment'',
                ''issue_comment event handled!'']) w)))"
proof -
  obtain msgs where dd: "determine_diff ev = (Inr loc, msgs)"
    using assms(1) by (cases "determine_diff ev") simp
  obtain found where sc:
    "scan_lines gbc (sender_login ev) (split_on NL (comment_diff loc)) ([], [])
       = (annotation, found)"
    using assms(3)
    by (cases "scan_lines gbc (sender_login ev) (split_on NL (comment_diff loc)) ([], [])")
      simp
  have ne: "annotation \<noteq> []"
    using scan_lines_nonempty [OF assms(2), of "sender_login ev"] assms(3) by simp
  show ?thesis
  proof (cases "perm (sender_login ev)")
    case True
    then show ?thesis
      by (auto simp add: handle_issue_comment_event_def Let_def)
  next
    case False
    have "handle_issue_comment_event gbc perm ev w =
            (Returned, log_msgs (([''Comment in '' @ issue_url ev @ '' (owned by @''
                  @ comment_user_login ev @ '') '' @ action ev @ '' by @'' @ sender_login ev
                  @ '': '' @ comment_body ev] @ msgs @ found
                  @ [''comment update: '' @ sq @ annotation @ sq]) @
               [''update '' @ sq @ annotation @ sq
                  @ '' is considered to contain bot command ... not updating PR comment'',
                ''issue_comment event handled!'']) w)"
      using False dd sc assms(4) ne
      by (simp add: handle_issue_comment_event_def Let_def)
    then show ?thesis using False by (metis log_msgs_frame(1,2) snd_conv)
  qed
qed

text \<open>A login with line breaks in it makes the annotation carry a command line.\<close>

theorem self_command_guard_witness:
  "fst (determine_diff forged_event)
      = Inr \<lparr>comment_new = Some ''bot: rebuild'', comment_diff = ''bot: rebuild''\<rparr>
   \<and> list_ex (\<lambda>line. truthy (get_bot_command line)) (split_on NL ''bot: rebuild'')
   \<and> list_ex (\<lambda>line. truthy (get_bot_command line))
        (split_on NL (NL # received_line ''bot: rebuild'' forged_login))
   \<and> fst (handle_issue_comment_event get_bot_command sample_check_command_permission forged_event
            (sample_world ''bot: rebuild'')) = Returned
   \<and> edit_calls (snd (handle_issue_comment_event get_bot_command sample_check_command_permission
            forged_event (sample_world ''bot: rebuild''))) = 0
   \<and> comments (snd (handle_issue_comment_event get_bot_command sample_check_command_permission
            forged_event (sample_world ''bot: rebuild''))) 42 = Some ''bot: rebuild''"
proof -
  let ?loc = "\<lparr>comment_new = Some ''bot: rebuild'', comment_diff = ''bot: rebuild''\<rparr>"
  let ?a = "NL # received_line ''bot: rebuild'' forged_login"
  have h1: "fst (determine_diff forged_event) = Inr ?loc"
    by (simp add: determine_diff_def forged_event_def sample_event_def Let_def)
  have h2: "list_ex (\<lambda>line. truthy (get_bot_command line)) (split_on NL (comment_diff ?loc))"
    by code_simp
  have h3: "?a = fst (scan_lines get_bot_command (sender_login forged_event)
                        (split_on NL (comment_diff ?loc)) ([], []))"
    by code_simp
  have h4: "list_ex (\<lambda>line. truthy (get_bot_command line)) (split_on NL ?a)"
    by code_simp
  from self_command_guard [OF h1 h2 h3 h4, of sample_check_command_permission "sample_world ''bot: rebuild''"]
  have "fst (handle_issue_comment_event get_bot_command sample_check_command_permission forged_event
            (sample_world ''bot: rebuild'')) = Returned
   \<and> edit_calls (snd (handle_issue_comment_event get_bot_command sample_check_command_permission
            forged_event (sample_world ''bot: rebuild''))) = 0
   \<and> comments (snd (handle_issue_comment_event get_bot_command sample_check_command_permission
            forged_event (sample_world ''bot: rebuild''))) 42 = Some ''bot: rebuild''"
    by (auto simp add: sample_world_def)
  with h1 h2 h4 show ?thesis by simp
qed

section \<open>The permission gate\<close>

text \<open>
  C3. The claim: a sender who fails the authorization check is turned away, and an
  authorized sender goes on to the diff and the scan. The handler tests
  \<open>if check_command_permission(sender):\<close> and so does the opposite, as its evaluation
  shows: for the account with permission it logs that the account has no permission and
  returns, and for an account without permission it goes on and edits the comment.
\<close>

theorem permission_gate_inverted:
  "sample_check_command_permission ''maintainer''
   \<and> handle_issue_comment_event get_bot_command sample_check_command_permission
        (sample_event ''created'' ''maintainer'' ''bot: rebuild'' None)
        (sample_world ''bot: rebuild'')
      = (Returned, log_msgs
          [''Comment in https://api.github.com/repos/EESSI/software-layer/issues/7 (owned by @contributor) created by @maintainer: bot: rebuild'',
           ''account `maintainer` has no permission to send commands to bot'']
          (sample_world ''bot: rebuild''))
   \<and> \<not> sample_check_command_permission ''stranger''
   \<and> fst (handle_issue_comment_event get_bot_command sample_check_command_permission
        (sample_event ''created'' ''stranger'' ''bot: rebuild'' None)
        (sample_world ''bot: rebuild'')) = Returned
   \<and> comments (snd (handle_issue_comment_event get_bot_command sample_check_command_permission
        (sample_event ''created'' ''stranger'' ''bot: rebuild'' None)
        (sample_world ''bot: rebuild''))) 42
      = Some ''bot: rebuild\<newline>- received bot command `bot: rebuild` from `stranger`''"
proof -
  have a: "sample_check_command_permission ''maintainer''" "\<not> sample_check_command_permission ''stranger''"
    by (simp_all add: sample_check_command_permission_def)
  have b: "handle_issue_comment_event get_bot_command sample_check_command_permission
        (sample_event ''created'' ''maintainer'' ''bot: rebuild'' None)
        (sample_world ''bot: rebuild'')
      = (Returned, log_msgs
          [''Comment in https://api.github.com/repos/EESSI/software-layer/issues/7 (owned by @contributor) created by @maintainer: bot: rebuild'',
           ''account `maintainer` has no permission to send commands to bot'']
          (sample_world ''bot: rebuild''))"
    by (simp add: handle_issue_comment_event_def sample_event_def sample_check_command_permission_def)
  have c: "fst (handle_issue_comment_event get_bot_command sample_check_command_permission
        (sample_event ''created'' ''stranger'' ''bot: rebuild'' None)
        (sample_world ''bot: rebuild'')) = Returned
   \<and> comments (snd (handle_issue_comment_event get_bot_command sample_check_command_permission
        (sample_event ''created'' ''stranger'' ''bot: rebuild'' None)
        (sample_world ''bot: rebuild''))) 42
      = Some ''bot: rebuild\<newline>- received bot command `bot: rebuild` from `stranger`''"
    by code_simp
  from a b c show ?thesis by blast
qed

section \<open>The shape of the annotation\<close>

text \<open>
  C9, amended. Let the sender's login contain no line break, and let the matcher be
  anchored (a line yields a command only if, trimmed, it begins with the command prefix)
  and return commands without line breaks. Then the annotation built from any lines is the
  concatenation of one segment, a line break followed by
  \<open>- received bot command `<command>` from `<sender>`\<close>, for each command found; each of
  its lines is empty or begins with \<open>- received bot command \<close>; none begins with the
  command prefix; none yields a command; and a handler that has passed the permission gate
  and built a non-empty annotation takes the branch that edits the comment.
\<close>

theorem annotation_lines:
  assumes "NL \<notin> set (sender_login ev)"
    and "\<forall>l c. gbc l = Some c \<longrightarrow> NL \<notin> set c"
    and "\<forall>l. truthy (gbc l) \<longrightarrow> prefix command_prefix (strip l)"
    and "annotation = fst (scan_lines gbc (sender_login ev) lines ([], []))"
  shows "annotation = concat (map (\<lambda>c. NL # received_line c (sender_login ev))
                              (found_commands gbc lines))
    \<and> (\<forall>l \<in> set (split_on NL annotation). l = [] \<or> prefix ''- received bot command '' l)
    \<and> (\<forall>l \<in> set (split_on NL annotation). \<not> prefix command_prefix l)
    \<and> \<not> list_ex (\<lambda>l. truthy (gbc l)) (split_on NL annotation)
    \<and> (\<not> perm (sender_login ev) \<and> fst (determine_diff ev) = Inr loc
         \<and> lines = split_on NL (comment_diff loc) \<and> annotation \<noteq> [] \<longrightarrow>
        (\<exists>logged. handle_issue_comment_event gbc perm ev w =
           (case edit_pr_comment ev (comment_new loc) annotation (log_msgs logged w) of
              (Raised e, w3) \<Rightarrow> (Raised e, w3)
            | (Returned, w3) \<Rightarrow> (Returned, log_msgs [''issue_comment event handled!''] w3))))"
proof -
  have shape: "annotation = concat (map (\<lambda>c. NL # received_line c (sender_login ev))
                              (found_commands gbc lines))"
    using scan_lines_fst [of gbc "sender_login ev" lines "[]" "[]"] assms(4) by simp
  have lines: "split_on NL annotation
      = [] # map (\<lambda>c. received_line c (sender_login ev)) (found_commands gbc lines)"
    unfolding shape using assms(1,2) by (rule annotation_split)
  have a: "\<forall>l \<in> set (split_on NL annotation). l = [] \<or> prefix ''- received bot command '' l"
    unfolding lines by (auto simp add: received_line_not_command)
  have b: "\<forall>l \<in> set (split_on NL annotation). \<not> prefix command_prefix l"
    unfolding lines by (auto simp add: received_line_not_command) (simp add: command_prefix_def)
  have "\<forall>l \<in> set (split_on NL annotation). \<not> prefix command_prefix (strip l)"
    unfolding lines by (auto simp add: received_line_not_command) (simp add: command_prefix_def)
  with assms(3) have c: "\<not> list_ex (\<lambda>l. truthy (gbc l)) (split_on NL annotation)"
    by (auto simp add: list_ex_iff)
  have d: "\<exists>logged. handle_issue_comment_event gbc perm ev w =
           (case edit_pr_comment ev (comment_new loc) annotation (log_msgs logged w) of
              (Raised e, w3) \<Rightarrow> (Raised e, w3)
            | (Returned, w3) \<Rightarrow> (Returned, log_msgs [''issue_comment event handled!''] w3))"
    if p: "\<not> perm (sender_login ev)" "fst (determine_diff ev) = Inr loc"
       "lines = split_on NL (comment_diff loc)" "annotation \<noteq> []"
  proof -
    obtain msgs where dd: "determine_diff ev = (Inr loc, msgs)"
      using p(2) by (cases "determine_diff ev") simp
    obtain found where sc:
      "scan_lines gbc (sender_login ev) (split_on NL (comment_diff loc)) ([], [])
         = (annotation, found)"
      using assms(4) p(3)
      by (cases "scan_lines gbc (sender_login ev) (split_on NL (comment_diff loc)) ([], [])")
        simp
    show ?thesis
      using p(1,4) c dd sc
      by (auto simp add: handle_issue_comment_event_def Let_def)
  qed
  from shape a b c d show ?thesis by blast
qed

text \<open>The comment \<open>bot: rebuild\<close>, twice, of the specification's scenario.\<close>

theorem annotation_lines_witness:
  "NL \<notin> set (sender_login twice_event)
   \<and> \<not> sample_check_command_permission (sender_login twice_event)
   \<and> twice_annotation = fst (scan_lines get_bot_command (sender_login twice_event)
         (split_on NL ''bot: rebuild\<newline>bot: rebuild'') ([], []))
   \<and> list_all (\<lambda>l. l = [] \<or> prefix ''- received bot command '' l)
        (split_on NL twice_annotation)
   \<and> \<not> list_ex (\<lambda>l. prefix command_prefix l) (split_on NL twice_annotation)
   \<and> \<not> list_ex (\<lambda>l. truthy (get_bot_command l)) (split_on NL twice_annotation)
   \<and> (\<exists>logged. handle_issue_comment_event get_bot_command sample_check_command_permission twice_event
           (sample_world ''bot: rebuild\<newline>bot: rebuild'') =
           (case edit_pr_comment twice_event (Some ''bot: rebuild\<newline>bot: rebuild'')
                   twice_annotation
                   (log_msgs logged (sample_world ''bot: rebuild\<newline>bot: rebuild'')) of
              (Raised e, w3) \<Rightarrow> (Raised e, w3)
            | (Returned, w3) \<Rightarrow> (Returned, log_msgs [''issue_comment event handled!''] w3)))"
proof -
  let ?loc = "\<lparr>comment_new = Some ''bot: rebuild\<newline>bot: rebuild'',
               comment_diff = ''bot: rebuild\<newline>bot: rebuild''\<rparr>"
  have h1: "NL \<notin> set (sender_login twice_event)"
    by (simp add: twice_event_def sample_event_def)
  have h2: "\<forall>l c. get_bot_command l = Some c \<longrightarrow> NL \<notin> set c"
    using get_bot_command_no_newline by blast
  have h3: "\<forall>l. truthy (get_bot_command l) \<longrightarrow> prefix command_prefix (strip l)"
    using get_bot_command_anchored by blast
  have h4: "twice_annotation = fst (scan_lines get_bot_command (sender_login twice_event)
         (split_on NL ''bot: rebuild\<newline>bot: rebuild'') ([], []))"
    by code_simp
  have g1: "\<not> sample_check_command_permission (sender_login twice_event)"
    by (simp add: twice_event_def sample_event_def sample_check_command_permission_def)
  have g2: "fst (determine_diff twice_event) = Inr ?loc"
    by (simp add: determine_diff_def twice_event_def sample_event_def Let_def)
  have g3: "''bot: rebuild\<newline>bot: rebuild'' = comment_diff ?loc"
    by simp
  have g4: "twice_annotation \<noteq> []"
    by (simp add: twice_annotation_def)
  from annotation_lines [OF h1 h2 h3 h4, of sample_check_command_permission ?loc
      "sample_world ''bot: rebuild\<newline>bot: rebuild''"] h1 h4 g1 g2 g3 g4
  show ?thesis by (simp add: list_all_iff list_ex_iff)
qed

text \<open>
  C9 as stated fails for a login with line breaks in it: a line of the annotation is then
  a command, and the handler does not edit the comment.
\<close>

theorem annotation_lines_counterexample:
  "\<not> sample_check_command_permission (sender_login forged_event)
   \<and> fst (determine_diff forged_event)
        = Inr \<lparr>comment_new = Some ''bot: rebuild'', comment_diff = ''bot: rebuild''\<rparr>
   \<and> split_on NL (fst (scan_lines get_bot_command (sender_login forged_event)
                          (split_on NL ''bot: rebuild'') ([], [])))
        = ['''', ''- received bot command `bot: rebuild` from `eve'', ''bot: rebuild'', ''`'']
   \<and> \<not> prefix ''- received bot command '' ''bot: rebuild''
   \<and> prefix command_prefix ''bot: rebuild''
   \<and> get_bot_command ''bot: rebuild'' = Some ''bot: rebuild''
   \<and> fst (handle_issue_comment_event get_bot_command sample_check_command_permission forged_event
            (sample_world ''bot: rebuild'')) = Returned
   \<and> fetch_calls (snd (handle_issue_comment_event get_bot_command sample_check_command_permission
            forged_event (sample_world ''bot: rebuild''))) = 0
   \<and> edit_calls (snd (handle_issue_comment_event get_bot_command sample_check_command_permission
            forged_event (sample_world ''bot: rebuild''))) = 0
   \<and> comments (snd (handle_issue_comment_event get_bot_command sample_check_command_permission
            forged_event (sample_world ''bot: rebuild''))) 42 = Some ''bot: rebuild''"
  by code_simp

section \<open>Events that neither create nor edit a comment\<close>

text \<open>
  C10. For an issue-comment event whose action is neither \<open>created\<close> nor \<open>edited\<close> (a
  deletion, say) the diff stays empty, and the handler makes no call of \<open>edit\<close> and leaves
  the comments as they are. When the matcher returns nothing for the empty line, the
  update composed is empty and the handler returns early, having only logged; past the
  permission gate its last message is that the update is empty.
\<close>

theorem other_actions_no_write:
  assumes "action ev \<noteq> ''created''" and "action ev \<noteq> ''edited''"
  shows "map_sum id comment_diff (fst (determine_diff ev)) = Inr []
    \<and> comments (snd (handle_issue_comment_event gbc perm ev w)) = comments w
    \<and> edit_calls (snd (handle_issue_comment_event gbc perm ev w)) = edit_calls w
    \<and> (\<not> truthy (gbc []) \<longrightarrow>
         fst (scan_lines gbc (sender_login ev) (split_on NL []) ([], [])) = []
         \<and> (\<exists>logged. handle_issue_comment_event gbc perm ev w = (Returned, log_msgs logged w))
         \<and> (\<not> perm (sender_login ev) \<longrightarrow>
              (\<exists>earlier. handle_issue_comment_event gbc perm ev w =
                 (Returned, log_msgs (earlier @ [''update to comment is empty'']) w))))"
proof -
  have dd: "determine_diff ev = (Inr \<lparr>comment_new = None, comment_diff = []\<rparr>, [])"
    using assms by (simp add: determine_diff_def)
  have 1: "map_sum id comment_diff (fst (determine_diff ev)) = Inr []"
    by (simp add: dd)
  obtain u f where sc: "scan_lines gbc (sender_login ev) [[]] ([], []) = (u, f)"
    by (cases "scan_lines gbc (sender_login ev) [[]] ([], [])")
  have 2: "comments (snd (handle_issue_comment_event gbc perm ev w)) = comments w
    \<and> edit_calls (snd (handle_issue_comment_event gbc perm ev w)) = edit_calls w"
  proof (cases "perm (sender_login ev)")
    case True
    then show ?thesis by (simp add: handle_issue_comment_event_def Let_def)
  next
    case False
    show ?thesis
    proof (cases "u = [] \<or> list_ex (\<lambda>line. truthy (gbc line)) (split_on NL u)")
      case True
      then show ?thesis using False sc
        by (auto simp add: handle_issue_comment_event_def Let_def dd)
    next
      case nguard: False
      obtain r w3 where e: "edit_pr_comment ev None u (log_msgs ([''Comment in '' @ issue_url ev @ '' (owned by @''
                  @ comment_user_login ev @ '') '' @ action ev @ '' by @'' @ sender_login ev
                  @ '': '' @ comment_body ev] @ f @ [''comment update: '' @ sq @ u @ sq]) w) = (r, w3)"
        by (cases "edit_pr_comment ev None u (log_msgs ([''Comment in '' @ issue_url ev @ '' (owned by @''
                  @ comment_user_login ev @ '') '' @ action ev @ '' by @'' @ sender_login ev
                  @ '': '' @ comment_body ev] @ f @ [''comment update: '' @ sq @ u @ sq]) w)")
      from edit_pr_comment_unbound [of ev u "log_msgs ([''Comment in '' @ issue_url ev @ '' (owned by @''
                  @ comment_user_login ev @ '') '' @ action ev @ '' by @'' @ sender_login ev
                  @ '': '' @ comment_body ev] @ f @ [''comment update: '' @ sq @ u @ sq]) w"] e
      have fr: "comments w3 = comments w \<and> edit_calls w3 = edit_calls w" by simp
      have "handle_issue_comment_event gbc perm ev w =
          (case r of Raised e \<Rightarrow> (Raised e, w3)
             | Returned \<Rightarrow> (Returned, log_msgs [''issue_comment event handled!''] w3))"
        using False nguard sc e
        by (simp add: handle_issue_comment_event_def Let_def dd)
      then show ?thesis using fr by (cases r) simp_all
    qed
  qed
  have 3: "fst (scan_lines gbc (sender_login ev) (split_on NL []) ([], [])) = []
         \<and> (\<exists>logged. handle_issue_comment_event gbc perm ev w = (Returned, log_msgs logged w))
         \<and> (\<not> perm (sender_login ev) \<longrightarrow>
              (\<exists>earlier. handle_issue_comment_event gbc perm ev w =
                 (Returned, log_msgs (earlier @ [''update to comment is empty'']) w)))"
    if nt: "\<not> truthy (gbc [])"
  proof -
    have u: "scan_lines gbc (sender_login ev) [[]] ([], []) =
       ([], [''searching line '' @ sq @ [] @ sq @ '' for bot command'',
             sq @ [] @ sq @ '' is not considered to contain a bot command''])"
      using nt by (simp add: Let_def)
    show ?thesis
    proof (cases "perm (sender_login ev)")
      case True
      then show ?thesis using u
        by (simp add: handle_issue_comment_event_def Let_def) blast
    next
      case False
      have "handle_issue_comment_event gbc perm ev w =
         (Returned, log_msgs (([''Comment in '' @ issue_url ev @ '' (owned by @''
                  @ comment_user_login ev @ '') '' @ action ev @ '' by @'' @ sender_login ev
                  @ '': '' @ comment_body ev,
                  ''searching line '' @ sq @ [] @ sq @ '' for bot command'',
                  sq @ [] @ sq @ '' is not considered to contain a bot command'',
                  ''comment update: '' @ sq @ [] @ sq]) @ [''update to comment is empty'']) w)"
        using False
        by (simp add: handle_issue_comment_event_def dd u del: scan_lines.simps)
      then show ?thesis using u False by (metis fst_conv split_on.simps(1))
    qed
  qed
  from 1 2 3 show ?thesis by blast
qed

theorem other_actions_no_write_witness:
  "action deleted_event \<noteq> ''created'' \<and> action deleted_event \<noteq> ''edited''
   \<and> \<not> truthy (get_bot_command [])
   \<and> map_sum id comment_diff (fst (determine_diff deleted_event)) = Inr []
   \<and> comments (snd (handle_issue_comment_event get_bot_command sample_check_command_permission
         deleted_event (sample_world ''bot: rebuild''))) = comments (sample_world ''bot: rebuild'')
   \<and> edit_calls (snd (handle_issue_comment_event get_bot_command sample_check_command_permission
         deleted_event (sample_world ''bot: rebuild''))) = 0
   \<and> (\<exists>earlier. handle_issue_comment_event get_bot_command sample_check_command_permission
         deleted_event (sample_world ''bot: rebuild'') =
           (Returned, log_msgs (earlier @ [''update to comment is empty''])
              (sample_world ''bot: rebuild'')))"
proof -
  have h1: "action deleted_event \<noteq> ''created''" and h2: "action deleted_event \<noteq> ''edited''"
    by (simp_all add: deleted_event_def sample_event_def)
  have h3: "\<not> truthy (get_bot_command [])"
    by code_simp
  have h4: "\<not> sample_check_command_permission (sender_login deleted_event)"
    by (simp add: deleted_event_def sample_event_def sample_check_command_permission_def)
  have h5: "edit_calls (sample_world ''bot: rebuild'') = 0"
    by (simp add: sample_world_def)
  from other_actions_no_write [OF h1 h2, of get_bot_command sample_check_command_permission
      "sample_world ''bot: rebuild''"] h1 h2 h3 h4 h5
  show ?thesis by simp
qed

section \<open>Labels of a pull request\<close>

text \<open>
  C7. \<open>handle_pull_request_labeled_event\<close> always returns. For the label \<open>bot:build\<close> it
  submits the build jobs if the build permission check passes and does nothing more than
  logging if it fails; for \<open>bot:deploy\<close> it deploys the built artefacts; for any other
  label it starts nothing and logs that there is no handler for the label.
\<close>

theorem labeled_event_dispatch:
  "fst (handle_pull_request_labeled_event check_build_permission ev w) = Returned
   \<and> comments (snd (handle_pull_request_labeled_event check_build_permission ev w)) = comments w
   \<and> (label_name ev = ''bot:build'' \<and> check_build_permission ev \<longrightarrow>
        dispatched (snd (handle_pull_request_labeled_event check_build_permission ev w))
          = dispatched w @ [SubmitBuildJobs (pr_number ev)])
   \<and> (label_name ev = ''bot:build'' \<and> \<not> check_build_permission ev \<longrightarrow>
        dispatched (snd (handle_pull_request_labeled_event check_build_permission ev w))
          = dispatched w)
   \<and> (label_name ev = ''bot:deploy'' \<longrightarrow>
        dispatched (snd (handle_pull_request_labeled_event check_build_permission ev w))
          = dispatched w @ [DeployBuiltArtefacts (pr_number ev)])
   \<and> (label_name ev \<noteq> ''bot:build'' \<and> label_name ev \<noteq> ''bot:deploy'' \<longrightarrow>
        dispatched (snd (handle_pull_request_labeled_event check_build_permission ev w))
          = dispatched w
        \<and> log_lines (snd (handle_pull_request_labeled_event check_build_permission ev w))
          = log_lines w @
            [''Process PR labeled event: PR#'' @ show_int (pr_number ev)
               @ '', label '' @ sq @ label_name ev @ sq,
             ''handle_pull_request_labeled_event: no handler for label ''
               @ sq @ label_name ev @ sq])"
  by (simp add: handle_pull_request_labeled_event_def Let_def)

theorem labeled_event_dispatch_witness:
  "dispatched (snd (handle_pull_request_labeled_event sample_check_build_permission
        \<lparr>pr_number = 7, label_name = ''bot:build''\<rparr> (sample_world ''foo'')))
     = [SubmitBuildJobs 7]
   \<and> dispatched (snd (handle_pull_request_labeled_event sample_check_build_permission
        \<lparr>pr_number = 8, label_name = ''bot:build''\<rparr> (sample_world ''foo''))) = []
   \<and> dispatched (snd (handle_pull_request_labeled_event sample_check_build_permission
        \<lparr>pr_number = 8, label_name = ''bot:deploy''\<rparr> (sample_world ''foo'')))
     = [DeployBuiltArtefacts 8]
   \<and> dispatched (snd (handle_pull_request_labeled_event sample_check_build_permission
        \<lparr>pr_number = 7, label_name = ''bot:unknown''\<rparr> (sample_world ''foo''))) = []
   \<and> log_lines (snd (handle_pull_request_labeled_event sample_check_build_permission
        \<lparr>pr_number = 7, label_name = ''bot:unknown''\<rparr> (sample_world ''foo'')))
     = [''Process PR labeled event: PR#7, label '' @ sq @ ''bot:unknown'' @ sq,
        ''handle_pull_request_labeled_event: no handler for label '' @ sq @ ''bot:unknown'' @ sq]
   \<and> fst (handle_pull_request_labeled_event sample_check_build_permission
        \<lparr>pr_number = 7, label_name = ''bot:unknown''\<rparr> (sample_world ''foo'')) = Returned"
proof -
  have s: "show_int 7 = ''7''" by code_simp
  show ?thesis
    using
      labeled_event_dispatch [of sample_check_build_permission
        "\<lparr>pr_number = 7, label_name = ''bot:build''\<rparr>" "sample_world ''foo''"]
      labeled_event_dispatch [of sample_check_build_permission
        "\<lparr>pr_number = 8, label_name = ''bot:build''\<rparr>" "sample_world ''foo''"]
      labeled_event_dispatch [of sample_check_build_permission
        "\<lparr>pr_number = 8, label_name = ''bot:deploy''\<rparr>" "sample_world ''foo''"]
      labeled_event_dispatch [of sample_check_build_permission
        "\<lparr>pr_number = 7, label_name = ''bot:unknown''\<rparr>" "sample_world ''foo''"]
    by (simp add: sample_check_build_permission_def sample_world_def s)
qed

section \<open>The matcher is anchored\<close>

text \<open>
  C8. \<open>get_bot_command\<close> is a function of the line alone, defined on every string. It
  returns nothing for a line that, trimmed, does not begin with the prefix \<open>bot:\<close>; so
  \<open>text bot: rebuild\<close> yields nothing, while \<open>bot: rebuild arch:intel\<close> yields the
  normalized command with \<open>rebuild\<close> and \<open>arch:intel\<close>.
\<close>

theorem get_bot_command_anchored_match:
  "(\<not> prefix command_prefix (strip s) \<longrightarrow> get_bot_command s = None)
   \<and> command_prefix = ''bot:''
   \<and> get_bot_command ''text bot: rebuild'' = None
   \<and> get_bot_command ''bot: rebuild arch:intel'' = Some ''bot: rebuild arch:intel''"
proof -
  have "\<not> prefix command_prefix (strip s) \<longrightarrow> get_bot_command s = None"
    by (simp add: get_bot_command_def Let_def)
  moreover have "command_prefix = ''bot:''"
    by (simp add: command_prefix_def)
  moreover have "get_bot_command ''text bot: rebuild'' = None"
    by code_simp
  moreover have "get_bot_command ''bot: rebuild arch:intel'' = Some ''bot: rebuild arch:intel''"
    by code_simp
  ultimately show ?thesis by blast
qed

theorem get_bot_command_anchored_match_witness:
  "\<not> prefix command_prefix (strip ''  see bot: rebuild '')
   \<and> get_bot_command ''  see bot: rebuild '' = None"
proof -
  have "\<not> prefix command_prefix (strip ''  see bot: rebuild '')"
    by code_simp
  with get_bot_command_anchored_match [of "''  see bot: rebuild ''"]
  show ?thesis by blast
qed

section \<open>Failures of the comment updater\<close>

text \<open>
  C4. With \<open>max_retries = 3\<close>: if every fetch fails, \<open>update_comment\<close> makes exactly three
  fetches, the failure of the third one is propagated, and nothing else changes, so the
  comment keeps its body. If the fetches succeed and every edit fails, the failure of the
  third edit is propagated after three fetches and three edits, the comments unchanged; and
  if the suffix is not a string, \<open>TypeError\<close> is propagated after three fetches, no edit
  having been called.
\<close>

theorem update_comment_exhausts_retries:
  "((\<forall>n. fetch_raises w n \<noteq> None) \<longrightarrow>
      update_comment cid new_suffix 3 w =
        (Raised (the (fetch_raises w (fetch_calls w + 2))),
         w\<lparr>fetch_calls := fetch_calls w + 3\<rparr>))
   \<and> ((\<forall>n. fetch_raises w n = None) \<and> comments w cid = Some old
        \<and> (\<forall>n. edit_raises w n \<noteq> None) \<longrightarrow>
      update_comment cid (PyStr s) 3 w =
        (Raised (the (edit_raises w (edit_calls w + 2))),
         w\<lparr>fetch_calls := fetch_calls w + 3, edit_calls := edit_calls w + 3\<rparr>))
   \<and> ((\<forall>n. fetch_raises w n = None) \<and> comments w cid = Some old \<longrightarrow>
      update_comment cid (PyInt i) 3 w =
        (Raised TypeError, w\<lparr>fetch_calls := fetch_calls w + 3\<rparr>))"
proof (intro conjI impI)
  assume "\<forall>n. fetch_raises w n \<noteq> None"
  from update_comment_fetch_fails [OF this, of cid new_suffix 2]
  show "update_comment cid new_suffix 3 w =
        (Raised (the (fetch_raises w (fetch_calls w + 2))),
         w\<lparr>fetch_calls := fetch_calls w + 3\<rparr>)"
    by simp
next
  assume p: "(\<forall>n. fetch_raises w n = None) \<and> comments w cid = Some old
        \<and> (\<forall>n. edit_raises w n \<noteq> None)"
  from update_comment_edit_fails [of w cid old s 2] p
  show "update_comment cid (PyStr s) 3 w =
        (Raised (the (edit_raises w (edit_calls w + 2))),
         w\<lparr>fetch_calls := fetch_calls w + 3, edit_calls := edit_calls w + 3\<rparr>)"
    by simp
next
  assume p: "(\<forall>n. fetch_raises w n = None) \<and> comments w cid = Some old"
  from update_comment_type_error [of w cid old i 2] p
  show "update_comment cid (PyInt i) 3 w =
        (Raised TypeError, w\<lparr>fetch_calls := fetch_calls w + 3\<rparr>)"
    by simp
qed

text \<open>The three failing tests of \<open>test_tools_pr_comments.py\<close>.\<close>

theorem update_comment_exhausts_retries_witness:
  "update_comment 42 (PyStr ''raise GetIssueCommentException'') 3 (fetch_failing_world ''foo'')
     = (Raised GetIssueCommentException, (fetch_failing_world ''foo'')\<lparr>fetch_calls := 3\<rparr>)
   \<and> comments ((fetch_failing_world ''foo'')\<lparr>fetch_calls := 3\<rparr>) 42 = Some ''foo''
   \<and> update_comment 42 (PyStr ''raise EditIssueCommentException'') 3
        (edit_failing_world ''__ORG-comment__'')
     = (Raised EditIssueCommentException,
        (edit_failing_world ''__ORG-comment__'')\<lparr>fetch_calls := 3, edit_calls := 3\<rparr>)
   \<and> update_comment 42 (PyInt 42) 3 (sample_world ''__ORG-comment__'')
     = (Raised TypeError, (sample_world ''__ORG-comment__'')\<lparr>fetch_calls := 3\<rparr>)
   \<and> comments ((sample_world ''__ORG-comment__'')\<lparr>fetch_calls := 3\<rparr>) 42
     = Some ''__ORG-comment__''"
  using
    update_comment_exhausts_retries [of "fetch_failing_world ''foo''" 42
      "PyStr ''raise GetIssueCommentException''"]
    update_comment_exhausts_retries [of "edit_failing_world ''__ORG-comment__''" 42 _
      "''__ORG-comment__''" "''raise EditIssueCommentException''"]
    update_comment_exhausts_retries [of "sample_world ''__ORG-comment__''" 42 _
      "''__ORG-comment__''" _ 42]
  by (simp add: fetch_failing_world_def edit_failing_world_def sample_world_def
      always_raises_def never_raises_def)

section \<open>A successful update\<close>

text \<open>
  C5. Whenever \<open>update_comment\<close> returns for a comment that the store holds, the suffix
  was a string and the body of the comment is its old body followed by the suffix, nothing
  having been logged. It does return: at once if the first fetch and the first edit
  succeed, and, with \<open>max_retries = 3\<close>, after two fetches if only the first fetch fails.
\<close>

theorem update_comment_success:
  "(update_comment cid new_suffix max_retries w = (Returned, w') \<and> comments w cid = Some old \<longrightarrow>
      (\<exists>s. new_suffix = PyStr s \<and> comments w' = (comments w)(cid \<mapsto> old @ s))
      \<and> log_lines w' = log_lines w)
   \<and> (fetch_raises w (fetch_calls w) = None \<and> edit_raises w (edit_calls w) = None
        \<and> comments w cid = Some old \<longrightarrow>
      update_comment cid (PyStr s) max_retries w =
        (Returned, w\<lparr>fetch_calls := Suc (fetch_calls w), edit_calls := Suc (edit_calls w),
                      comments := (comments w)(cid \<mapsto> old @ s)\<rparr>))
   \<and> (fetch_raises w (fetch_calls w) \<noteq> None \<and> fetch_raises w (Suc (fetch_calls w)) = None
        \<and> edit_raises w (edit_calls w) = None \<and> comments w cid = Some old \<longrightarrow>
      update_comment cid (PyStr s) 3 w =
        (Returned, w\<lparr>fetch_calls := fetch_calls w + 2, edit_calls := Suc (edit_calls w),
                      comments := (comments w)(cid \<mapsto> old @ s)\<rparr>))"
proof -
  have a: "(\<exists>s. new_suffix = PyStr s \<and> comments w' = (comments w)(cid \<mapsto> old @ s))
      \<and> log_lines w' = log_lines w"
    if "update_comment cid new_suffix max_retries w = (Returned, w') \<and> comments w cid = Some old"
    using update_comment_returned [of cid new_suffix max_retries w w' old] that by blast
  have b: "update_comment cid (PyStr s) max_retries w =
        (Returned, w\<lparr>fetch_calls := Suc (fetch_calls w), edit_calls := Suc (edit_calls w),
                      comments := (comments w)(cid \<mapsto> old @ s)\<rparr>)"
    if "fetch_raises w (fetch_calls w) = None \<and> edit_raises w (edit_calls w) = None
        \<and> comments w cid = Some old"
    using that by (simp add: update_comment_first_try)
  have c: "update_comment cid (PyStr s) 3 w =
        (Returned, w\<lparr>fetch_calls := fetch_calls w + 2, edit_calls := Suc (edit_calls w),
                      comments := (comments w)(cid \<mapsto> old @ s)\<rparr>)"
    if "fetch_raises w (fetch_calls w) \<noteq> None \<and> fetch_raises w (Suc (fetch_calls w)) = None
        \<and> edit_raises w (edit_calls w) = None \<and> comments w cid = Some old"
    using update_comment_second_try [of w cid old s 1] that
    by (simp add: numeral_3_eq_3)
  from a b c show ?thesis by blast
qed

theorem update_comment_success_witness:
  "update_comment 42 (PyStr ''body-0'') 3 (sample_world ''__ORG-comment__'')
     = (Returned, (sample_world ''__ORG-comment__'')
          \<lparr>fetch_calls := 1, edit_calls := 1, comments := [42 \<mapsto> ''__ORG-comment__body-0'']\<rparr>)
   \<and> update_comment 42 (PyStr ''body-0'') 3 (flaky_world ''__ORG-comment__'')
     = (Returned, (flaky_world ''__ORG-comment__'')
          \<lparr>fetch_calls := 2, edit_calls := 1, comments := [42 \<mapsto> ''__ORG-comment__body-0'']\<rparr>)
   \<and> log_lines ((flaky_world ''__ORG-comment__'')
          \<lparr>fetch_calls := 2, edit_calls := 1, comments := [42 \<mapsto> ''__ORG-comment__body-0'']\<rparr>)
     = log_lines (flaky_world ''__ORG-comment__'')"
proof -
  let ?w = "sample_world ''__ORG-comment__''"
  let ?f = "flaky_world ''__ORG-comment__''"
  let ?f' = "?f\<lparr>fetch_calls := 2, edit_calls := 1, comments := [42 \<mapsto> ''__ORG-comment__body-0'']\<rparr>"
  have a: "update_comment 42 (PyStr ''body-0'') 3 ?w
     = (Returned, ?w\<lparr>fetch_calls := 1, edit_calls := 1,
                     comments := [42 \<mapsto> ''__ORG-comment__body-0'']\<rparr>)"
    using update_comment_success [of 42 _ 3 ?w _ "''__ORG-comment__''" "''body-0''"]
    by (simp add: sample_world_def never_raises_def)
  have b: "update_comment 42 (PyStr ''body-0'') 3 ?f = (Returned, ?f')"
    using update_comment_success [of 42 _ 3 ?f _ "''__ORG-comment__''" "''body-0''"]
    by (simp add: flaky_world_def sample_world_def never_raises_def raises_once_def)
  have c: "log_lines ?f' = log_lines ?f"
    using update_comment_success [of 42 "PyStr ''body-0''" 3 ?f ?f' "''__ORG-comment__''"] b
    by (simp add: flaky_world_def sample_world_def)
  from a b c show ?thesis by blast
qed

section \<open>A comment that is not there\<close>

text \<open>
  C6. If the fetch succeeds and yields no comment, \<open>update_comment\<close> logs
  \<open>no comment with id <id>, skipping update '<new_suffix>'\<close>, calls no edit, leaves the
  comments as they are and returns without raising.
\<close>

theorem update_comment_no_comment:
  "(fetch_phase max_retries cid w = (Inr None, w') \<longrightarrow>
      update_comment cid new_suffix max_retries w =
        (Returned,
         log_msgs [''no comment with id '' @ show_int cid @ '', skipping update ''
                   @ sq @ py_str new_suffix @ sq] w')
      \<and> edit_calls w' = edit_calls w \<and> comments w' = comments w)
   \<and> (fetch_raises w (fetch_calls w) = None \<and> comments w cid = None \<longrightarrow>
      update_comment cid new_suffix max_retries w =
        (Returned,
         w\<lparr>fetch_calls := Suc (fetch_calls w),
           log_lines := log_lines w @
             [''no comment with id '' @ show_int cid @ '', skipping update ''
              @ sq @ py_str new_suffix @ sq]\<rparr>))"
proof -
  have a: "update_comment cid new_suffix max_retries w =
        (Returned,
         log_msgs [''no comment with id '' @ show_int cid @ '', skipping update ''
                   @ sq @ py_str new_suffix @ sq] w')
      \<and> edit_calls w' = edit_calls w \<and> comments w' = comments w"
    if f: "fetch_phase max_retries cid w = (Inr None, w')"
    using fetch_phase_frame [OF f] f
    by (auto simp add: update_comment_def no_comment_msg_def)
  have b: "update_comment cid new_suffix max_retries w =
        (Returned,
         w\<lparr>fetch_calls := Suc (fetch_calls w),
           log_lines := log_lines w @
             [''no comment with id '' @ show_int cid @ '', skipping update ''
              @ sq @ py_str new_suffix @ sq]\<rparr>)"
    if "fetch_raises w (fetch_calls w) = None \<and> comments w cid = None"
    using that
    by (simp add: update_comment_def fetch_phase_returns no_comment_msg_def log_msgs_def)
  from a b show ?thesis by blast
qed

theorem update_comment_no_comment_witness:
  "update_comment 0 (PyStr ''body-0'') 3 empty_world
     = (Returned,
        empty_world\<lparr>fetch_calls := 1,
          log_lines := [''no comment with id 0, skipping update '' @ sq @ ''body-0'' @ sq]\<rparr>)
   \<and> edit_calls (empty_world\<lparr>fetch_calls := 1,
          log_lines := [''no comment with id 0, skipping update '' @ sq @ ''body-0'' @ sq]\<rparr>) = 0"
proof -
  have s: "show_int 0 = ''0''" by code_simp
  show ?thesis
    using update_comment_no_comment [of 3 0 empty_world _ "PyStr ''body-0''"]
    by (simp add: empty_world_def sample_world_def never_raises_def s)
qed

end
